theory Spec2Isabelle
  imports Main "HOL-Library.Log_Nat" "HOL-Library.Code_Target_Numeral"
begin

section \<open>Numbers of the host platform\<close>

text \<open>
  The dice roller is a script for a browser: its numbers are ECMAScript Numbers, that
  is IEEE 754 binary64 values, and \<^verbatim>\<open>*\<close> is the binary64 product, rounded to the
  nearest representable value with ties to the even significand. A finite Number is
  modelled by the rational it denotes (both zeros by 0), the other three values by
  constructors of their own.
\<close>

datatype number = NaN | PosInfinity | NegInfinity | Finite rat

text \<open>Rounding a rational to an integer, ties to even.\<close>

definition roundTiesToEven :: "rat \<Rightarrow> int" where
  "roundTiesToEven q =
     (let n = \<lfloor>q\<rfloor>; d = q - of_int n
      in if d < 1 / 2 then n else if 1 / 2 < d then n + 1 else if even n then n else n + 1)"

text \<open>
  \<open>round_ulps y\<close> rounds a non-negative \<open>y\<close>, counted in units of the least
  subnormal \<open>2 ^ -1074\<close>, to a binary64 significand: 53 bits are kept, so the last
  place kept is \<open>2 ^ k\<close> units with \<open>k = bitlen \<lfloor>y\<rfloor> - 53\<close>, and 0 for the subnormals.
\<close>

definition round_ulps :: "rat \<Rightarrow> rat" where
  "round_ulps y =
     (let k = nat (bitlen \<lfloor>y\<rfloor> - 53)
      in of_int (roundTiesToEven (y / 2 ^ k)) * 2 ^ k)"

definition round_binary64 :: "rat \<Rightarrow> rat" where
  "round_binary64 x =
     (if x < 0 then - (round_ulps (- x * 2 ^ 1074) / 2 ^ 1074)
      else round_ulps (x * 2 ^ 1074) / 2 ^ 1074)"

text \<open>The finite Numbers are the rationals that rounding leaves alone, below the overflow threshold.\<close>

definition is_binary64 :: "rat \<Rightarrow> bool" where
  "is_binary64 x \<longleftrightarrow> \<bar>x\<bar> < 2 ^ 1024 \<and> round_binary64 x = x"

text \<open>
  \<^verbatim>\<open>x * y\<close> on finite Numbers whose product stays below \<open>2 ^ 1024\<close> (the script
  multiplies a value of \<^verbatim>\<open>Math.random()\<close> by 6, so nothing overflows), and
  \<^verbatim>\<open>Math.floor\<close> on a finite Number. The floor of a Number below \<open>2 ^ 53\<close> and
  that floor plus 1 are integers that binary64 holds exactly, so both are integers here.
\<close>

definition Number_multiply :: "rat \<Rightarrow> rat \<Rightarrow> rat" where
  "Number_multiply x y = round_binary64 (x * y)"

definition Math_floor :: "rat \<Rightarrow> int" where
  "Math_floor x = \<lfloor>x\<rfloor>"

text \<open>
  The Number value for a rational: the nearest Number, an infinity from \<open>2 ^ 1024\<close> on
  (values from \<open>2 ^ 1024 - 2 ^ 970\<close> on round up to it).
\<close>

definition Number_value :: "rat \<Rightarrow> number" where
  "Number_value x =
     (let v = round_binary64 x
      in if 2 ^ 1024 \<le> v then PosInfinity
         else if v \<le> - (2 ^ 1024) then NegInfinity
         else Finite v)"

section \<open>Values, and the conversions the script relies on\<close>

text \<open>
  The script hands two kinds of value to the generator: the string read from the input
  field, and (in the claims about a count \<open>N\<close>) a Number. A string is a list of code
  units; \<^typ>\<open>char\<close> holds the code units up to \<open>0xFF\<close>.
\<close>

datatype jsvalue = JSString string | JSNumber number

text \<open>
  StringToNumber (ECMA-262, 7.1.4.1.1) parses the string as a StringNumericLiteral:
  optional white space around an optional StrNumericLiteral, which is a signed decimal
  literal (\<^verbatim>\<open>Infinity\<close>, or digits with an optional fraction and exponent) or an
  unsigned binary, octal or hexadecimal integer literal. Anything else is NaN; white
  space alone, and the empty string, is 0. The decimal value is rounded to the nearest
  Number (for more than 20 significant digits the standard lets an engine round the
  decimal first; the engines in use do not).
\<close>

definition StrWhiteSpaceChar :: "char \<Rightarrow> bool" where
  "StrWhiteSpaceChar c \<longleftrightarrow> (of_char c :: nat) \<in> {9, 10, 11, 12, 13, 32, 160}"

definition trimString :: "string \<Rightarrow> string" where
  "trimString str = rev (dropWhile StrWhiteSpaceChar (rev (dropWhile StrWhiteSpaceChar str)))"

text \<open>The value of a digit in any radix up to 16; 16 for a code unit that is no digit.\<close>

definition digit_of :: "char \<Rightarrow> nat" where
  "digit_of c =
     (let n = of_char c
      in if 48 \<le> n \<and> n \<le> 57 then n - 48
         else if 97 \<le> n \<and> n \<le> 102 then n - 87
         else if 65 \<le> n \<and> n \<le> 70 then n - 55
         else 16)"

definition Digits :: "nat \<Rightarrow> string \<Rightarrow> bool" where
  "Digits radix ds \<longleftrightarrow> ds \<noteq> [] \<and> list_all (\<lambda>c. digit_of c < radix) ds"

definition MV :: "nat \<Rightarrow> string \<Rightarrow> nat" where
  "MV radix ds = foldl (\<lambda>a c. a * radix + digit_of c) 0 ds"

definition power10 :: "int \<Rightarrow> rat" where
  "power10 e = (if 0 \<le> e then 10 ^ nat e else 1 / 10 ^ nat (- e))"

text \<open>ExponentPart after its indicator: a SignedInteger.\<close>

definition SignedInteger :: "string \<Rightarrow> int option" where
  "SignedInteger ds =
     (case ds of
        [] \<Rightarrow> None
      | c # cs \<Rightarrow>
          if c = CHR ''+'' then (if Digits 10 cs then Some (int (MV 10 cs)) else None)
          else if c = CHR ''-'' then (if Digits 10 cs then Some (- int (MV 10 cs)) else None)
          else if Digits 10 ds then Some (int (MV 10 ds)) else None)"

text \<open>StrUnsignedDecimalLiteral other than \<^verbatim>\<open>Infinity\<close>: its mathematical value.\<close>

definition StrUnsignedDecimalLiteral :: "string \<Rightarrow> rat option" where
  "StrUnsignedDecimalLiteral u =
     (let mantissa = takeWhile (\<lambda>c. c \<noteq> CHR ''e'' \<and> c \<noteq> CHR ''E'') u;
          indicated = dropWhile (\<lambda>c. c \<noteq> CHR ''e'' \<and> c \<noteq> CHR ''E'') u;
          exponent = (if indicated = [] then Some 0 else SignedInteger (tl indicated));
          whole = takeWhile (\<lambda>c. c \<noteq> CHR ''.'') mantissa;
          pointed = dropWhile (\<lambda>c. c \<noteq> CHR ''.'') mantissa
      in case exponent of
           None \<Rightarrow> None
         | Some e \<Rightarrow>
             if pointed = [] then
               (if Digits 10 whole then Some (of_nat (MV 10 whole) * power10 e) else None)
             else
               (let fraction = tl pointed
                in if whole = [] then
                     (if Digits 10 fraction
                      then Some (of_nat (MV 10 fraction) * power10 (e - int (length fraction)))
                      else None)
                   else if Digits 10 whole \<and> (fraction = [] \<or> Digits 10 fraction) then
                     Some ((of_nat (MV 10 whole)
                            + of_nat (MV 10 fraction) * power10 (- int (length fraction)))
                           * power10 e)
                   else None))"

definition NonDecimalIntegerLiteral :: "string \<Rightarrow> nat option" where
  "NonDecimalIntegerLiteral t =
     (case t of
        c0 # c1 # ds \<Rightarrow>
          if c0 \<noteq> CHR ''0'' then None
          else if c1 = CHR ''x'' \<or> c1 = CHR ''X'' then (if Digits 16 ds then Some (MV 16 ds) else None)
          else if c1 = CHR ''o'' \<or> c1 = CHR ''O'' then (if Digits 8 ds then Some (MV 8 ds) else None)
          else if c1 = CHR ''b'' \<or> c1 = CHR ''B'' then (if Digits 2 ds then Some (MV 2 ds) else None)
          else None
      | _ \<Rightarrow> None)"

definition StrDecimalLiteral :: "string \<Rightarrow> number" where
  "StrDecimalLiteral t =
     (let negative = (t \<noteq> [] \<and> hd t = CHR ''-'');
          u = (if t \<noteq> [] \<and> (hd t = CHR ''-'' \<or> hd t = CHR ''+'') then tl t else t)
      in if u = ''Infinity'' then (if negative then NegInfinity else PosInfinity)
         else case StrUnsignedDecimalLiteral u of
                None \<Rightarrow> NaN
              | Some v \<Rightarrow> Number_value (if negative then - v else v))"

definition StringToNumber :: "string \<Rightarrow> number" where
  "StringToNumber str =
     (let t = trimString str
      in if t = [] then Finite 0
         else case NonDecimalIntegerLiteral t of
                Some v \<Rightarrow> Number_value (of_nat v)
              | None \<Rightarrow> StrDecimalLiteral t)"

definition ToNumber :: "jsvalue \<Rightarrow> number" where
  "ToNumber v = (case v of JSString str \<Rightarrow> StringToNumber str | JSNumber n \<Rightarrow> n)"

text \<open>ToIntegerOrInfinity (7.1.5) and ToLength (7.1.20).\<close>

datatype integer_or_infinity = MinusInfinity | Integer int | PlusInfinity

definition truncate_rat :: "rat \<Rightarrow> int" where
  "truncate_rat x = (if x < 0 then \<lceil>x\<rceil> else \<lfloor>x\<rfloor>)"

definition ToIntegerOrInfinity :: "jsvalue \<Rightarrow> integer_or_infinity" where
  "ToIntegerOrInfinity v =
     (case ToNumber v of
        NaN \<Rightarrow> Integer 0
      | PosInfinity \<Rightarrow> PlusInfinity
      | NegInfinity \<Rightarrow> MinusInfinity
      | Finite x \<Rightarrow> Integer (truncate_rat x))"

definition ToLength :: "jsvalue \<Rightarrow> nat" where
  "ToLength v =
     (case ToIntegerOrInfinity v of
        MinusInfinity \<Rightarrow> 0
      | Integer len \<Rightarrow> (if len \<le> 0 then 0 else nat (min len (2 ^ 53 - 1)))
      | PlusInfinity \<Rightarrow> 2 ^ 53 - 1)"

section \<open>The random source\<close>

text \<open>
  \<^verbatim>\<open>Math.random()\<close> is the only input of the generator. The source of randomness is
  the sequence of values the calls will return, in order; a call takes the first and
  leaves the rest. The platform promises a finite Number, at least 0 and below 1.
\<close>

type_synonym random_source = "nat \<Rightarrow> rat"

definition Math_random :: "random_source \<Rightarrow> rat \<times> random_source" where
  "Math_random g = (g 0, \<lambda>i. g (Suc i))"

definition Math_random_contract :: "random_source \<Rightarrow> bool" where
  "Math_random_contract g \<longleftrightarrow> (\<forall>i. is_binary64 (g i) \<and> 0 \<le> g i \<and> g i < 1)"

section \<open>dice-roller-app/script.js: the generator\<close>

text \<open>
  \<^verbatim>\<open>function generateDiceNumber () { return Math.floor(Math.random() * 6) + 1; }\<close>
\<close>

definition generateDiceNumber :: "random_source \<Rightarrow> int \<times> random_source" where
  "generateDiceNumber g =
     (let (r, g') = Math_random g in (Math_floor (Number_multiply r 6) + 1, g'))"

text \<open>
  \<^verbatim>\<open>Array.from({ length: numberOfDice }, mapfn)\<close> (23.1.2.1, the argument is array-like,
  not iterable): the length is \<open>ToLength\<close> of the \<^verbatim>\<open>length\<close> property; the array is
  constructed with that length, which raises a RangeError above \<open>2 ^ 32 - 1\<close>; then
  \<open>mapfn\<close> is called once for each index from 0 up, and its results are the elements.
  Each call of the script's \<open>mapfn\<close> draws from the random source.

  This is the semantics of the language, which sets no bound on memory. An engine gives
  up earlier: on a large array, or on the long string that joining it makes, it raises
  an error of its own or stops, at a size that depends on the engine. No such limit is
  part of \<open>Array_from\<close>, and for that reason no theorem below says that a large array is
  built: about a large count the theorems say what the result is when there is one, and
  that there is none from \<open>2 ^ 32\<close> on.
\<close>

datatype error = RangeError

fun Array_from_loop ::
  "nat \<Rightarrow> (random_source \<Rightarrow> 'a \<times> random_source) \<Rightarrow> random_source \<Rightarrow> 'a list \<times> random_source" where
  "Array_from_loop 0 mapfn g = ([], g)"
| "Array_from_loop (Suc n) mapfn g =
     (let (v, g') = mapfn g; (vs, g'') = Array_from_loop n mapfn g' in (v # vs, g''))"

definition Array_from ::
  "jsvalue \<Rightarrow> (random_source \<Rightarrow> 'a \<times> random_source) \<Rightarrow> random_source
     \<Rightarrow> error + 'a list \<times> random_source" where
  "Array_from lengthValue mapfn g =
     (let len = ToLength lengthValue
      in if 2 ^ 32 - 1 < len then Inl RangeError else Inr (Array_from_loop len mapfn g))"

text \<open>
  \<^verbatim>\<open>function generateDiceNumbers (numberOfDice) {
    return Array.from({ length: numberOfDice }, () => generateDiceNumber()); }\<close>
\<close>

definition generateDiceNumbers ::
  "jsvalue \<Rightarrow> random_source \<Rightarrow> error + int list \<times> random_source" where
  "generateDiceNumbers numberOfDice g = Array_from numberOfDice generateDiceNumber g"

section \<open>dice-roller-app/script.js: the page, the renderer and the two commands\<close>

text \<open>
  The script reads and writes two properties of the page: the \<^verbatim>\<open>innerHTML\<close> of the
  element \<^verbatim>\<open>.dice-container\<close> (the display) and the \<^verbatim>\<open>value\<close> of the element
  \<^verbatim>\<open>#dice-input\<close>. Both elements are taken to be on the page: its markup is not
  among the sources, and without them \<^verbatim>\<open>querySelector\<close> would return null and the
  property accesses would raise a TypeError.
\<close>

record page =
  dice_container_innerHTML :: string
  dice_input_value :: string

text \<open>
  The template literal converts a face value with ToString: for an integer of magnitude
  below \<open>10 ^ 21\<close>, and face values are, that is its decimal numeral.
\<close>

fun decimal_digits :: "nat \<Rightarrow> string" where
  "decimal_digits n =
     (if n < 10 then [''0123456789'' ! n]
      else decimal_digits (n div 10) @ [''0123456789'' ! (n mod 10)])"

declare decimal_digits.simps [simp del]

definition Number_toString :: "int \<Rightarrow> string" where
  "Number_toString n =
     (if n < 0 then CHR ''-'' # decimal_digits (nat (- n)) else decimal_digits (nat n))"

text \<open>\<^verbatim>\<open>Array.prototype.join\<close> on an array of strings.\<close>

fun Array_join :: "string \<Rightarrow> string list \<Rightarrow> string" where
  "Array_join separator [] = []"
| "Array_join separator [x] = x"
| "Array_join separator (x # y # ys) = x @ separator @ Array_join separator (y # ys)"

text \<open>
  \<^verbatim>\<open>function displayDiceNumbers (diceNumbers) {
    const diceContainer = document.querySelector('.dice-container');
    diceContainer.innerHTML =
      diceNumbers.map(number => `<div class="dice-face">${number}</div>`).join(''); }\<close>
\<close>

definition dice_face :: "int \<Rightarrow> string" where
  "dice_face number = ''<div class=\"dice-face\">'' @ Number_toString number @ ''</div>''"

definition displayDiceNumbers :: "int list \<Rightarrow> page \<Rightarrow> page" where
  "displayDiceNumbers diceNumbers s =
     s\<lparr>dice_container_innerHTML := Array_join [] (map dice_face diceNumbers)\<rparr>"

text \<open>
  \<^verbatim>\<open>function rollDice () {
    const numberOfDice = document.querySelector('#dice-input').value;
    const diceNumbers = generateDiceNumbers(numberOfDice);
    displayDiceNumbers(diceNumbers); }\<close>

  An exception of the generator leaves the handler before the display is written.
\<close>

definition rollDice :: "page \<Rightarrow> random_source \<Rightarrow> error + page \<times> random_source" where
  "rollDice s g =
     (let numberOfDice = dice_input_value s
      in case generateDiceNumbers (JSString numberOfDice) g of
           Inl e \<Rightarrow> Inl e
         | Inr (diceNumbers, g') \<Rightarrow> Inr (displayDiceNumbers diceNumbers s, g'))"

text \<open>
  \<^verbatim>\<open>function resetDice () {
    const diceContainer = document.querySelector('.dice-container');
    diceContainer.innerHTML = '';
    document.querySelector('#dice-input').value = ''; }\<close>
\<close>

definition resetDice :: "page \<Rightarrow> page" where
  "resetDice s = s\<lparr>dice_container_innerHTML := [], dice_input_value := []\<rparr>"

section \<open>Reading the display\<close>

text \<open>
  What the display shows is what the platform reads out of the markup assigned to
  \<^verbatim>\<open>innerHTML\<close>. \<open>dice_blocks\<close> reads a markup that is a sequence of
  \<^verbatim>\<open><div class="dice-face">\<close> elements with a text and no child, and gives the
  texts in order; it gives \<open>None\<close> for any other markup. It is the observation the
  claims about blocks are stated with, and no part of the script.
\<close>

definition strip_prefix :: "string \<Rightarrow> string \<Rightarrow> string option" where
  "strip_prefix p str = (if take (length p) str = p then Some (drop (length p) str) else None)"

function dice_blocks :: "string \<Rightarrow> string list option" where
  "dice_blocks markup =
     (if markup = [] then Some []
      else case strip_prefix ''<div class=\"dice-face\">'' markup of
             None \<Rightarrow> None
           | Some rest \<Rightarrow>
               (case strip_prefix ''</div>'' (dropWhile (\<lambda>c. c \<noteq> CHR ''<'') rest) of
                  None \<Rightarrow> None
                | Some rest' \<Rightarrow>
                    map_option ((#) (takeWhile (\<lambda>c. c \<noteq> CHR ''<'') rest)) (dice_blocks rest')))"
  by pat_completeness auto
termination
proof (relation "measure length")
  show "wf (measure length)" by simp
next
  fix markup rest rest' :: string
  assume ne: "markup \<noteq> []"
    and r: "strip_prefix ''<div class=\"dice-face\">'' markup = Some rest"
    and r': "strip_prefix ''</div>'' (dropWhile (\<lambda>c. c \<noteq> CHR ''<'') rest) = Some rest'"
  have "length rest' \<le> length (dropWhile (\<lambda>c. c \<noteq> CHR ''<'') rest)"
    using r' by (auto simp: strip_prefix_def split: if_splits)
  also have "\<dots> \<le> length rest" by (rule length_dropWhile_le)
  also have "\<dots> < length markup"
    using r ne by (cases markup) (auto simp: strip_prefix_def split: if_splits)
  finally show "(rest', markup) \<in> measure length" by simp
qed

declare dice_blocks.simps [simp del]

section \<open>Facts about rounding\<close>

lemma roundTiesToEven_le: "q \<le> of_int n \<Longrightarrow> roundTiesToEven q \<le> n"
  unfolding roundTiesToEven_def Let_def
  by (auto simp: floor_le_iff)

lemma roundTiesToEven_ge: "of_int n \<le> q \<Longrightarrow> n \<le> roundTiesToEven q"
proof -
  assume "of_int n \<le> q"
  then have "n \<le> \<lfloor>q\<rfloor>" by (simp add: le_floor_iff)
  then show ?thesis unfolding roundTiesToEven_def Let_def by auto
qed

lemma roundTiesToEven_le_quarter: "q \<le> of_int n + 1 / 4 \<Longrightarrow> roundTiesToEven q \<le> n"
  unfolding roundTiesToEven_def Let_def
  by (auto simp: floor_le_iff)

lemma roundTiesToEven_of_int: "roundTiesToEven (of_int n) = n"
  unfolding roundTiesToEven_def Let_def by simp

lemma below_bitlen: "0 \<le> y \<Longrightarrow> y < 2 ^ nat (bitlen \<lfloor>y\<rfloor>)" for y :: rat
proof (cases "0 < \<lfloor>y\<rfloor>")
  case True
  then have "\<lfloor>y\<rfloor> < 2 ^ nat (bitlen \<lfloor>y\<rfloor>)" using bitlen_bounds by blast
  then have "\<lfloor>y\<rfloor> + 1 \<le> 2 ^ nat (bitlen \<lfloor>y\<rfloor>)" by simp
  then have "(of_int (\<lfloor>y\<rfloor> + 1) :: rat) \<le> of_int (2 ^ nat (bitlen \<lfloor>y\<rfloor>))"
    by (rule of_int_le_iff[THEN iffD2])
  moreover have "y < of_int (\<lfloor>y\<rfloor> + 1)" by linarith
  ultimately show ?thesis by simp
next
  case False
  assume "0 \<le> y"
  with False have f0: "\<lfloor>y\<rfloor> = 0" by (simp add: order_antisym)
  then have "y < 1" by (simp add: floor_eq_iff)
  with f0 show ?thesis by simp
qed

lemma bitlen_floor_le: "0 \<le> y \<Longrightarrow> y < 2 ^ w \<Longrightarrow> bitlen \<lfloor>y\<rfloor> \<le> int w" for y :: rat
proof -
  assume "0 \<le> y" and "y < 2 ^ w"
  then have "\<lfloor>y\<rfloor> < 2 ^ w" by (simp add: floor_less_iff)
  then have "nat \<lfloor>y\<rfloor> < 2 ^ w" by (simp add: nat_less_iff)
  then show ?thesis by (simp add: bitlen_def floorlog_le_iff)
qed

lemma round_ulps_nonneg: "0 \<le> y \<Longrightarrow> 0 \<le> round_ulps y"
proof -
  assume "0 \<le> y"
  then have "(of_int 0 :: rat) \<le> y / 2 ^ nat (bitlen \<lfloor>y\<rfloor> - 53)" by simp
  then have "0 \<le> roundTiesToEven (y / 2 ^ nat (bitlen \<lfloor>y\<rfloor> - 53))"
    by (rule roundTiesToEven_ge)
  then show ?thesis by (simp add: round_ulps_def Let_def)
qed

text \<open>A value of at most \<open>w\<close> bits rounds to at most \<open>2 ^ w\<close>.\<close>

lemma round_ulps_le_pow:
  assumes "0 \<le> y" and "bitlen \<lfloor>y\<rfloor> \<le> int w" and "53 \<le> w"
  shows "round_ulps y \<le> 2 ^ w"
proof -
  define k where "k = nat (bitlen \<lfloor>y\<rfloor> - 53)"
  have kw: "k + 53 \<le> w" using assms by (simp add: k_def)
  have "nat (bitlen \<lfloor>y\<rfloor>) \<le> k + 53" by (simp add: k_def)
  then have "(2::rat) ^ nat (bitlen \<lfloor>y\<rfloor>) \<le> 2 ^ (k + 53)"
    by (simp add: power_increasing)
  with below_bitlen[OF assms(1)] have "y < 2 ^ (k + 53)" by linarith
  then have "y / 2 ^ k < 2 ^ 53" by (simp add: power_add field_simps)
  then have "y / 2 ^ k \<le> of_int (2 ^ 53)" by simp
  then have "roundTiesToEven (y / 2 ^ k) \<le> 2 ^ 53" by (rule roundTiesToEven_le)
  then have "(of_int (roundTiesToEven (y / 2 ^ k)) :: rat) \<le> of_int (2 ^ 53)"
    by (rule of_int_le_iff[THEN iffD2])
  then have "round_ulps y \<le> 2 ^ 53 * 2 ^ k"
    by (simp add: round_ulps_def Let_def k_def[symmetric])
  also have "\<dots> = 2 ^ (k + 53)" by (simp add: power_add)
  also have "\<dots> \<le> 2 ^ w" using kw by (simp add: power_increasing)
  finally show ?thesis .
qed

text \<open>
  The largest representable value below \<open>2 ^ (E + 53)\<close> units is one last place
  (\<open>2 ^ E\<close> units) short of it.
\<close>

lemma representable_gap:
  assumes "0 \<le> y" and "y < 2 ^ (E + 53)" and "round_ulps y = y"
  shows "y \<le> 2 ^ (E + 53) - 2 ^ E"
proof -
  define k where "k = nat (bitlen \<lfloor>y\<rfloor> - 53)"
  define N where "N = roundTiesToEven (y / 2 ^ k)"
  have yN: "y = of_int N * 2 ^ k"
    using assms(3) by (simp add: round_ulps_def Let_def k_def[symmetric] N_def[symmetric])
  have "bitlen \<lfloor>y\<rfloor> \<le> int (E + 53)" using assms(1,2) by (rule bitlen_floor_le)
  then have kE: "k \<le> E" by (simp add: k_def)
  show ?thesis
  proof (cases "k = E")
    case True
    with yN assms(2) have "of_int N * 2 ^ E < (2::rat) ^ (E + 53)" by simp
    then have "(of_int N :: rat) < of_int (2 ^ 53)" by (simp add: power_add)
    then have "N < 2 ^ 53" by (simp only: of_int_less_iff)
    then have "N \<le> 2 ^ 53 - 1" by simp
    then have "(of_int N :: rat) \<le> of_int (2 ^ 53 - 1)" by (simp only: of_int_le_iff)
    then have "(of_int N :: rat) * 2 ^ E \<le> (2 ^ 53 - 1) * 2 ^ E" by simp
    with yN True show ?thesis by (simp add: power_add algebra_simps)
  next
    case False
    with kE have "k < E" by simp
    then have "nat (bitlen \<lfloor>y\<rfloor>) \<le> E + 52" by (simp add: k_def)
    then have "(2::rat) ^ nat (bitlen \<lfloor>y\<rfloor>) \<le> 2 ^ (E + 52)"
      by (simp add: power_increasing)
    with below_bitlen[OF assms(1)] have "y < 2 ^ (E + 52)" by linarith
    moreover have "(2::rat) ^ (E + 52) \<le> 2 ^ (E + 53) - 2 ^ E"
      by (simp add: power_add)
    ultimately show ?thesis by linarith
  qed
qed

text \<open>
  Six times such a value rounds to less than six times \<open>2 ^ (E + 53)\<close>: the exact
  product is three quarters of a last place short of it, and rounds down.
\<close>

lemma round_ulps_six:
  assumes "0 \<le> y" and "y \<le> 2 ^ (E + 53) - 2 ^ E"
  shows "round_ulps (6 * y) < 6 * 2 ^ (E + 53)"
proof -
  define z where "z = 6 * y"
  define k where "k = nat (bitlen \<lfloor>z\<rfloor> - 53)"
  have z0: "0 \<le> z" using assms(1) by (simp add: z_def)
  have zle: "z \<le> 6 * 2 ^ (E + 53) - 6 * 2 ^ E" using assms(2) by (simp add: z_def)
  have "(6::rat) * 2 ^ (E + 53) - 6 * 2 ^ E < 2 ^ (E + 56)" by (simp add: power_add)
  with zle have "z < 2 ^ (E + 56)" by linarith
  with z0 have "bitlen \<lfloor>z\<rfloor> \<le> int (E + 56)" by (rule bitlen_floor_le)
  then have kE: "k \<le> E + 3" by (simp add: k_def)
  show ?thesis
  proof (cases "k = E + 3")
    case True
    have "z / 2 ^ k \<le> (6 * 2 ^ (E + 53) - 6 * 2 ^ E) / 2 ^ (E + 3)"
      using zle True by (simp add: divide_right_mono)
    also have "\<dots> = of_int (6 * 2 ^ 50 - 1) + 1 / 4"
      by (simp add: power_add field_simps)
    finally have "roundTiesToEven (z / 2 ^ k) \<le> 6 * 2 ^ 50 - 1"
      by (rule roundTiesToEven_le_quarter)
    then have "(of_int (roundTiesToEven (z / 2 ^ k)) :: rat) \<le> of_int (6 * 2 ^ 50 - 1)"
      by (simp only: of_int_le_iff)
    then have "round_ulps z \<le> of_int (6 * 2 ^ 50 - 1) * 2 ^ (E + 3)"
      by (simp add: round_ulps_def Let_def k_def[symmetric] True)
    also have "\<dots> < 6 * 2 ^ (E + 53)" by (simp add: power_add)
    finally show ?thesis by (simp add: z_def)
  next
    case False
    with kE have "k \<le> E + 2" by simp
    then have "bitlen \<lfloor>z\<rfloor> \<le> int (E + 55)" by (simp add: k_def)
    with z0 have "round_ulps z \<le> 2 ^ (E + 55)" by (rule round_ulps_le_pow) simp
    also have "\<dots> < 6 * 2 ^ (E + 53)" by (simp add: power_add)
    finally show ?thesis by (simp add: z_def)
  qed
qed

lemma round_binary64_nonneg: "0 \<le> x \<Longrightarrow> round_binary64 x = round_ulps (x * 2 ^ 1074) / 2 ^ 1074"
  by (simp only: round_binary64_def not_less[symmetric] if_False)

text \<open>The product of a Number below 1 and 6 is a Number below 6, rounding included.\<close>

lemma Number_multiply_six_range:
  assumes "is_binary64 r" and "0 \<le> r" and "r < 1"
  shows "0 \<le> Number_multiply r 6 \<and> Number_multiply r 6 < 6"
proof -
  define M :: rat where "M = 2 ^ 1074"
  have M_pos: "0 < M" by (simp add: M_def)
  have M_split: "M = 2 ^ (1021 + 53)" by (simp add: M_def)
  have rb: "round_binary64 x = round_ulps (x * M) / M" if "0 \<le> x" for x
    unfolding M_def using that by (rule round_binary64_nonneg)
  define y where "y = r * M"
  have y0: "0 \<le> y" using assms(2) M_pos by (simp add: y_def)
  have "y < M" using assms(3) M_pos by (simp add: y_def)
  then have ylt: "y < 2 ^ (1021 + 53)" by (simp only: M_split)
  have "round_binary64 r = r" using assms(1) by (simp add: is_binary64_def)
  then have "round_ulps y / M = r" using rb[OF assms(2)] by (simp add: y_def)
  then have stays: "round_ulps y = y" using M_pos by (simp add: y_def field_simps)
  have gap: "y \<le> 2 ^ (1021 + 53) - 2 ^ 1021" using y0 ylt stays by (rule representable_gap)
  have "round_ulps (6 * y) < 6 * 2 ^ (1021 + 53)" using y0 gap by (rule round_ulps_six)
  then have "round_ulps (6 * y) < 6 * M" by (simp only: M_split)
  then have up: "round_ulps (6 * y) / M < 6" using M_pos by (simp add: divide_less_eq)
  have "0 \<le> round_ulps (6 * y)" using y0 by (simp add: round_ulps_nonneg)
  then have lo: "0 \<le> round_ulps (6 * y) / M" using M_pos by simp
  have "0 \<le> r * 6" using assms(2) by simp
  then have "round_binary64 (r * 6) = round_ulps (r * 6 * M) / M" by (rule rb)
  moreover have "r * 6 * M = 6 * y" by (simp add: y_def)
  ultimately have "Number_multiply r 6 = round_ulps (6 * y) / M"
    by (simp add: Number_multiply_def)
  with lo up show ?thesis by simp
qed

text \<open>Values with at most 53 significant bits at a binary place down to 1074 are Numbers.\<close>

lemma round_ulps_exact:
  assumes "0 \<le> m" and "m < 2 ^ 53"
  shows "round_ulps (of_int m * 2 ^ j) = of_int m * 2 ^ j"
proof (cases "m = 0")
  case True
  then show ?thesis by (simp add: round_ulps_def roundTiesToEven_def)
next
  case False
  with assms(1) have mpos: "0 < m" by simp
  have fl: "\<lfloor>(of_int m :: rat) * 2 ^ j\<rfloor> = m * 2 ^ j"
  proof -
    have "(of_int m :: rat) * 2 ^ j = of_int (m * 2 ^ j)" by simp
    then show ?thesis by (simp only: floor_of_int)
  qed
  define k where "k = nat (bitlen (m * 2 ^ j) - 53)"
  have "nat m < 2 ^ 53" using assms by (simp add: nat_less_iff)
  then have "bitlen m \<le> 53" by (simp add: bitlen_def floorlog_le_iff)
  then have kj: "k \<le> j" using mpos by (simp add: k_def)
  then have split: "(2::rat) ^ j = 2 ^ (j - k) * 2 ^ k"
    by (simp add: power_add[symmetric])
  then have "(of_int m :: rat) * 2 ^ j / 2 ^ k = of_int (m * 2 ^ (j - k))"
    by simp
  then have "roundTiesToEven ((of_int m :: rat) * 2 ^ j / 2 ^ k) = m * 2 ^ (j - k)"
    by (simp only: roundTiesToEven_of_int)
  then have "round_ulps (of_int m * 2 ^ j) = of_int (m * 2 ^ (j - k)) * 2 ^ k"
    by (simp add: round_ulps_def Let_def fl k_def[symmetric])
  also have "\<dots> = of_int m * 2 ^ j" by (simp add: split)
  finally show ?thesis .
qed

lemma is_binary64_dyadic:
  assumes "0 \<le> m" and "m < 2 ^ 53" and "j \<le> 1074"
  shows "is_binary64 (of_int m / 2 ^ j)"
proof -
  define M :: rat where "M = 2 ^ 1074"
  have M_pos: "0 < M" by (simp add: M_def)
  have "M = 2 ^ (1074 - j + j)" using assms(3) by (simp add: M_def)
  then have M_split: "M = 2 ^ (1074 - j) * 2 ^ j" by (simp only: power_add)
  have scale: "(of_int m :: rat) / 2 ^ j * M = of_int m * 2 ^ (1074 - j)"
    by (simp add: M_split)
  have "round_ulps (of_int m * 2 ^ (1074 - j)) = of_int m * 2 ^ (1074 - j)"
    using assms(1,2) by (rule round_ulps_exact)
  then have "round_ulps ((of_int m :: rat) / 2 ^ j * M) = of_int m / 2 ^ j * M"
    by (simp only: scale)
  then have "round_ulps ((of_int m :: rat) / 2 ^ j * M) / M = of_int m / 2 ^ j"
    using M_pos by simp
  moreover have "0 \<le> (of_int m :: rat) / 2 ^ j" using assms(1) by simp
  ultimately have r: "round_binary64 (of_int m / 2 ^ j) = of_int m / 2 ^ j"
    by (simp only: round_binary64_nonneg M_def)
  have "(1::rat) \<le> 2 ^ j" by simp
  then have "(of_int m :: rat) * 1 \<le> of_int m * 2 ^ j"
    using assms(1) by (simp only: mult_left_mono of_int_0_le_iff)
  then have "(of_int m :: rat) / 2 ^ j \<le> of_int m" by (simp add: divide_le_eq)
  also have "\<dots> < of_int (2 ^ 53)" using assms(2) by (simp only: of_int_less_iff)
  also have "\<dots> < 2 ^ 1024" by simp
  finally have "\<bar>(of_int m :: rat) / 2 ^ j\<bar> < 2 ^ 1024" using assms(1) by simp
  with r show ?thesis by (simp only: is_binary64_def simp_thms)
qed

lemma roundTiesToEven_nearest: "\<bar>of_int (roundTiesToEven q) - q\<bar> \<le> 1 / 2"
proof -
  have "of_int \<lfloor>q\<rfloor> \<le> q" and "q < of_int \<lfloor>q\<rfloor> + 1" by linarith+
  then show ?thesis unfolding roundTiesToEven_def Let_def by auto
qed

text \<open>Rounding moves a value by at most half a unit in the last place kept.\<close>

lemma round_ulps_nearest:
  "\<bar>round_ulps y - y\<bar> \<le> 2 ^ nat (bitlen \<lfloor>y\<rfloor> - 53) / 2"
proof -
  define k where "k = nat (bitlen \<lfloor>y\<rfloor> - 53)"
  have "\<bar>of_int (roundTiesToEven (y / 2 ^ k)) - y / 2 ^ k\<bar> * 2 ^ k \<le> 1 / 2 * 2 ^ k"
    using roundTiesToEven_nearest[of "y / 2 ^ k"] by (simp only: mult_right_mono zero_le_power zero_le_numeral)
  moreover have "\<bar>of_int (roundTiesToEven (y / 2 ^ k)) - y / 2 ^ k\<bar> * 2 ^ k
      = \<bar>of_int (roundTiesToEven (y / 2 ^ k)) * 2 ^ k - y\<bar>"
  proof -
    have "\<bar>of_int (roundTiesToEven (y / 2 ^ k)) - y / 2 ^ k\<bar> * \<bar>(2::rat) ^ k\<bar>
      = \<bar>(of_int (roundTiesToEven (y / 2 ^ k)) - y / 2 ^ k) * 2 ^ k\<bar>"
      by (simp only: abs_mult)
    then show ?thesis by (simp add: algebra_simps)
  qed
  ultimately show ?thesis by (simp add: round_ulps_def Let_def k_def[symmetric])
qed

text \<open>What rounding returns is representable: rounding it again changes nothing.\<close>

lemma round_ulps_idem:
  assumes "0 \<le> y"
  shows "round_ulps (round_ulps y) = round_ulps y"
proof -
  define k where "k = nat (bitlen \<lfloor>y\<rfloor> - 53)"
  define N where "N = roundTiesToEven (y / 2 ^ k)"
  have r: "round_ulps y = of_int N * 2 ^ k"
    by (simp add: round_ulps_def Let_def k_def[symmetric] N_def)
  have "(of_int 0 :: rat) \<le> y / 2 ^ k" using assms by simp
  then have N0: "0 \<le> N" unfolding N_def by (rule roundTiesToEven_ge)
  have "nat (bitlen \<lfloor>y\<rfloor>) \<le> k + 53" by (simp add: k_def)
  then have "(2::rat) ^ nat (bitlen \<lfloor>y\<rfloor>) \<le> 2 ^ (k + 53)" by (simp add: power_increasing)
  with below_bitlen[OF assms] have "y < 2 ^ (k + 53)" by linarith
  then have "y / 2 ^ k < 2 ^ 53" by (simp add: power_add field_simps)
  then have "y / 2 ^ k \<le> of_int (2 ^ 53)" by simp
  then have N53: "N \<le> 2 ^ 53" unfolding N_def by (rule roundTiesToEven_le)
  show ?thesis
  proof (cases "N = 2 ^ 53")
    case True
    have "round_ulps (of_int 1 * 2 ^ (53 + k)) = of_int 1 * 2 ^ (53 + k)"
      by (rule round_ulps_exact) simp_all
    then show ?thesis by (simp add: r True power_add)
  next
    case False
    with N53 have "N < 2 ^ 53" by simp
    with N0 have "round_ulps (of_int N * 2 ^ k) = of_int N * 2 ^ k" by (rule round_ulps_exact)
    then show ?thesis by (simp only: r)
  qed
qed

lemma is_binary64_Number_multiply_six:
  assumes "is_binary64 r" and "0 \<le> r" and "r < 1"
  shows "is_binary64 (Number_multiply r 6)"
proof -
  define M :: rat where "M = 2 ^ 1074"
  have M_pos: "0 < M" by (simp add: M_def)
  have rb: "round_binary64 x = round_ulps (x * M) / M" if "0 \<le> x" for x
    unfolding M_def using that by (rule round_binary64_nonneg)
  have range: "0 \<le> Number_multiply r 6 \<and> Number_multiply r 6 < 6"
    using assms by (rule Number_multiply_six_range)
  have x0: "0 \<le> r * 6" using assms(2) by simp
  then have y0: "0 \<le> r * 6 * M" using M_pos by simp
  have p: "Number_multiply r 6 = round_ulps (r * 6 * M) / M"
    using rb[OF x0] by (simp add: Number_multiply_def)
  have "round_binary64 (Number_multiply r 6) = round_ulps (Number_multiply r 6 * M) / M"
    using range by (simp add: rb)
  also have "\<dots> = round_ulps (round_ulps (r * 6 * M)) / M" using M_pos by (simp add: p)
  also have "\<dots> = round_ulps (r * 6 * M) / M" using y0 by (simp only: round_ulps_idem)
  finally have "round_binary64 (Number_multiply r 6) = Number_multiply r 6" by (simp only: p)
  moreover have "\<bar>Number_multiply r 6\<bar> < 2 ^ 1024"
  proof -
    have "\<bar>Number_multiply r 6\<bar> < 6" using range by simp
    also have "(6::rat) < 2 ^ 1024" by simp
    finally show ?thesis .
  qed
  ultimately show ?thesis by (simp only: is_binary64_def simp_thms)
qed

text \<open>
  The rounding is visible in the script: the Number nearest to one sixth is
  \<open>6004799503160661 / 2 ^ 55\<close>, a little below it; six times it is half a last place
  below 1 and rounds, the tie going to the even significand, to 1.
\<close>

lemma bitlen_54: "bitlen 18014398509481983 = 54"
proof -
  have "floorlog 2 (nat 18014398509481983) \<le> 54" by (rule floorlog_leI) simp_all
  moreover have "54 \<le> floorlog 2 (nat 18014398509481983)" by (rule floorlog_geI) simp_all
  ultimately show ?thesis by (simp add: bitlen_def)
qed

lemma roundTiesToEven_tie: "roundTiesToEven ((2 ^ 54 - 1) / 2) = 2 ^ 53"
proof -
  have "\<lfloor>((2 ^ 54 - 1) / 2 :: rat)\<rfloor> = 2 ^ 53 - 1" by (simp add: floor_eq_iff)
  then show ?thesis by (simp add: roundTiesToEven_def Let_def)
qed

lemma round_ulps_tie: "round_ulps (of_int (2 ^ 54 - 1) * 2 ^ j) = 2 ^ (54 + j)"
proof -
  have "(of_int (2 ^ 54 - 1) :: rat) * 2 ^ j = of_int ((2 ^ 54 - 1) * 2 ^ j)" by simp
  then have fl: "\<lfloor>(of_int (2 ^ 54 - 1) :: rat) * 2 ^ j\<rfloor> = (2 ^ 54 - 1) * 2 ^ j"
    by (simp only: floor_of_int)
  have "bitlen ((2 ^ 54 - 1) * 2 ^ j) = bitlen (2 ^ 54 - 1) + int j" by (rule bitlen_pow2) simp
  then have k: "nat (bitlen ((2 ^ 54 - 1) * 2 ^ j) - 53) = Suc j" by (simp add: bitlen_54)
  have "(of_int (2 ^ 54 - 1) :: rat) * 2 ^ j / 2 ^ Suc j = (2 ^ 54 - 1) / 2" by simp
  then have "round_ulps (of_int (2 ^ 54 - 1) * 2 ^ j) = of_int (roundTiesToEven ((2 ^ 54 - 1) / 2)) * 2 ^ Suc j"
    by (simp only: round_ulps_def Let_def fl k)
  also have "\<dots> = 2 ^ (54 + j)" by (simp only: roundTiesToEven_tie) (simp add: power_add)
  finally show ?thesis .
qed

lemma Number_multiply_rounds_up:
  "Number_multiply (6004799503160661 / 2 ^ 55) 6 = 1
   \<and> \<lfloor>(6004799503160661 / 2 ^ 55 :: rat) * 6\<rfloor> = 0"
proof -
  define M :: rat where "M = 2 ^ 1074"
  have M_pos: "0 < M" by (simp add: M_def)
  have M_split: "M = 2 ^ (54 + 1020)" by (simp add: M_def)
  have x: "(6004799503160661 / 2 ^ 55 :: rat) * 6 = of_int (2 ^ 54 - 1) / 2 ^ 54" by simp
  have "of_int (2 ^ 54 - 1) / 2 ^ 54 * M = (of_int (2 ^ 54 - 1) :: rat) * 2 ^ 1020"
    by (simp only: M_split power_add) simp
  then have "round_ulps (of_int (2 ^ 54 - 1) / 2 ^ 54 * M) = M"
    by (simp only: round_ulps_tie M_split)
  then have "round_ulps (of_int (2 ^ 54 - 1) / 2 ^ 54 * M) / M = 1" using M_pos by simp
  moreover have "(0::rat) \<le> of_int (2 ^ 54 - 1) / 2 ^ 54" by simp
  ultimately have "round_binary64 (of_int (2 ^ 54 - 1) / 2 ^ 54) = 1"
    by (simp only: round_binary64_nonneg M_def)
  then have "Number_multiply (6004799503160661 / 2 ^ 55) 6 = 1"
    by (simp only: Number_multiply_def x)
  moreover have "\<lfloor>(6004799503160661 / 2 ^ 55 :: rat) * 6\<rfloor> = 0" by (simp add: floor_eq_iff)
  ultimately show ?thesis by simp
qed

lemma is_binary64_sixth: "is_binary64 (6004799503160661 / 2 ^ 55)"
  using is_binary64_dyadic[of 6004799503160661 55] by simp

text \<open>Rounding does not cross a multiple of a place that is at or above the last place kept.\<close>

lemma round_ulps_ge_multiple:
  assumes "bitlen \<lfloor>y\<rfloor> - 53 \<le> int j" and "of_int a * 2 ^ j \<le> y"
  shows "of_int a * 2 ^ j \<le> round_ulps y"
proof -
  define k where "k = nat (bitlen \<lfloor>y\<rfloor> - 53)"
  have kj: "k \<le> j" using assms(1) by (simp add: k_def)
  then have split: "(2::rat) ^ j = 2 ^ (j - k) * 2 ^ k" by (simp add: power_add[symmetric])
  have "(of_int (a * 2 ^ (j - k)) :: rat) * 2 ^ k \<le> y" using assms(2) by (simp add: split)
  then have "(of_int (a * 2 ^ (j - k)) :: rat) \<le> y / 2 ^ k" by (simp add: pos_le_divide_eq)
  then have "a * 2 ^ (j - k) \<le> roundTiesToEven (y / 2 ^ k)" by (rule roundTiesToEven_ge)
  then have "(of_int (a * 2 ^ (j - k)) :: rat) \<le> of_int (roundTiesToEven (y / 2 ^ k))"
    by (simp only: of_int_le_iff)
  then have "(of_int (a * 2 ^ (j - k)) :: rat) * 2 ^ k \<le> of_int (roundTiesToEven (y / 2 ^ k)) * 2 ^ k"
    by (simp only: mult_le_cancel_right_pos zero_less_power zero_less_numeral)
  then show ?thesis by (simp add: round_ulps_def Let_def k_def[symmetric] split)
qed

lemma round_ulps_le_multiple:
  assumes "bitlen \<lfloor>y\<rfloor> - 53 \<le> int j" and "y \<le> of_int a * 2 ^ j"
  shows "round_ulps y \<le> of_int a * 2 ^ j"
proof -
  define k where "k = nat (bitlen \<lfloor>y\<rfloor> - 53)"
  have kj: "k \<le> j" using assms(1) by (simp add: k_def)
  then have split: "(2::rat) ^ j = 2 ^ (j - k) * 2 ^ k" by (simp add: power_add[symmetric])
  have "y \<le> (of_int (a * 2 ^ (j - k)) :: rat) * 2 ^ k" using assms(2) by (simp add: split)
  then have "y / 2 ^ k \<le> (of_int (a * 2 ^ (j - k)) :: rat)" by (simp add: pos_divide_le_eq)
  then have "roundTiesToEven (y / 2 ^ k) \<le> a * 2 ^ (j - k)" by (rule roundTiesToEven_le)
  then have "(of_int (roundTiesToEven (y / 2 ^ k)) :: rat) \<le> of_int (a * 2 ^ (j - k))"
    by (simp only: of_int_le_iff)
  then have "of_int (roundTiesToEven (y / 2 ^ k)) * 2 ^ k \<le> (of_int (a * 2 ^ (j - k)) :: rat) * 2 ^ k"
    by (simp only: mult_le_cancel_right_pos zero_less_power zero_less_numeral)
  then show ?thesis by (simp add: round_ulps_def Let_def k_def[symmetric] split)
qed

text \<open>
  Below 8 the last place kept is at most \<open>2 ^ -50\<close>: the rounded value is within
  \<open>2 ^ -51\<close> of the exact one, and no integer lies strictly between the two.
\<close>

lemma round_binary64_below_8:
  assumes "0 \<le> x" and "x < 8"
  shows "\<bar>round_binary64 x - x\<bar> \<le> 1 / 2 ^ 51"
    and "of_int a \<le> x \<Longrightarrow> of_int a \<le> round_binary64 x"
    and "x \<le> of_int b \<Longrightarrow> round_binary64 x \<le> of_int b"
proof -
  define M :: rat where "M = 2 ^ 1074"
  have M_pos: "0 < M" by (simp add: M_def)
  have M_51: "M = 2 ^ 1023 * 2 ^ 51" by (simp add: M_def)
  have M_8: "8 * M = 2 ^ 1077" by (simp add: M_def)
  have rb: "round_binary64 x = round_ulps (x * M) / M"
    unfolding M_def using assms(1) by (rule round_binary64_nonneg)
  define y where "y = x * M"
  have y0: "0 \<le> y" using assms(1) M_pos by (simp add: y_def)
  have "y < 8 * M" using assms(2) M_pos by (simp add: y_def)
  then have "y < 2 ^ 1077" by (simp only: M_8)
  with y0 have bl: "bitlen \<lfloor>y\<rfloor> \<le> int 1077" by (rule bitlen_floor_le)
  then have k1074: "bitlen \<lfloor>y\<rfloor> - 53 \<le> int 1074" by simp
  from bl have "nat (bitlen \<lfloor>y\<rfloor> - 53) \<le> 1024" by simp
  then have "(2::rat) ^ nat (bitlen \<lfloor>y\<rfloor> - 53) \<le> 2 ^ 1024" by (simp only: power_increasing one_le_numeral)
  then have "(2::rat) ^ nat (bitlen \<lfloor>y\<rfloor> - 53) / 2 \<le> 2 ^ 1023" by simp
  with round_ulps_nearest[of y] have "\<bar>round_ulps y - y\<bar> \<le> 2 ^ 1023" by linarith
  then have "\<bar>round_ulps y - y\<bar> / M \<le> 2 ^ 1023 / M" using M_pos by (simp add: divide_right_mono)
  moreover have "\<bar>round_ulps y - y\<bar> / M = \<bar>round_ulps y / M - x\<bar>"
  proof -
    have "\<bar>round_ulps y - y\<bar> / \<bar>M\<bar> = \<bar>(round_ulps y - y) / M\<bar>" by (simp only: abs_divide)
    then show ?thesis using M_pos by (simp add: y_def diff_divide_distrib)
  qed
  moreover have "(2::rat) ^ 1023 / M = 1 / 2 ^ 51" by (simp add: M_51)
  ultimately show "\<bar>round_binary64 x - x\<bar> \<le> 1 / 2 ^ 51" by (simp only: rb y_def)
  show "of_int a \<le> round_binary64 x" if "of_int a \<le> x"
  proof -
    from that have "of_int a * M \<le> y" using M_pos by (simp add: y_def)
    then have "of_int a * 2 ^ 1074 \<le> y" by (simp only: M_def)
    with k1074 have "of_int a * 2 ^ 1074 \<le> round_ulps y" by (rule round_ulps_ge_multiple)
    then have "of_int a * M \<le> round_ulps y" by (simp only: M_def)
    then have "of_int a \<le> round_ulps y / M" using M_pos by (simp add: pos_le_divide_eq)
    then show ?thesis by (simp only: rb y_def)
  qed
  show "round_binary64 x \<le> of_int b" if "x \<le> of_int b"
  proof -
    from that have "y \<le> of_int b * M" using M_pos by (simp add: y_def)
    then have "y \<le> of_int b * 2 ^ 1074" by (simp only: M_def)
    with k1074 have "round_ulps y \<le> of_int b * 2 ^ 1074" by (rule round_ulps_le_multiple)
    then have "round_ulps y \<le> of_int b * M" by (simp only: M_def)
    then have "round_ulps y / M \<le> of_int b" using M_pos by (simp add: pos_divide_le_eq)
    then show ?thesis by (simp only: rb y_def)
  qed
qed

section \<open>Facts about the script\<close>

lemma generateDiceNumber_draw:
  assumes "Math_random g = (r, g')" and "is_binary64 r" and "0 \<le> r" and "r < 1"
  shows "generateDiceNumber g = (Math_floor (Number_multiply r 6) + 1, g')
       \<and> 1 \<le> Math_floor (Number_multiply r 6) + 1 \<and> Math_floor (Number_multiply r 6) + 1 \<le> 6"
proof -
  have eq: "generateDiceNumber g = (Math_floor (Number_multiply r 6) + 1, g')"
    using assms(1) by (simp add: generateDiceNumber_def)
  have "0 \<le> Number_multiply r 6 \<and> Number_multiply r 6 < 6"
    using assms(2-4) by (rule Number_multiply_six_range)
  then have "0 \<le> Math_floor (Number_multiply r 6) \<and> Math_floor (Number_multiply r 6) < 6"
    by (simp add: Math_floor_def floor_less_iff)
  with eq show ?thesis by simp
qed

text \<open>
  The draw against the exact product: the floor of the rounded product is the floor of
  the exact one, unless the rounding has reached the next integer, which it can only
  from within \<open>2 ^ -51\<close> below it.
\<close>

lemma generateDiceNumber_near_exact:
  assumes "Math_random g = (r, g')" and "0 \<le> r" and "r < 1"
  shows "\<exists>d. generateDiceNumber g = (d, g')
           \<and> (d = \<lfloor>r * 6\<rfloor> + 1
                \<or> d = \<lfloor>r * 6\<rfloor> + 2 \<and> of_int (\<lfloor>r * 6\<rfloor> + 1) - r * 6 \<le> 1 / 2 ^ 51)"
proof -
  define n where "n = \<lfloor>r * 6\<rfloor>"
  define p where "p = round_binary64 (r * 6)"
  have x0: "0 \<le> r * 6" using assms(2) by simp
  have x8: "r * 6 < 8" using assms(3) by simp
  have "of_int n \<le> r * 6" unfolding n_def by (rule of_int_floor_le)
  then have lo: "of_int n \<le> p" unfolding p_def by (rule round_binary64_below_8(2)[OF x0 x8])
  have "r * 6 \<le> of_int (n + 1)" unfolding n_def by linarith
  then have hi: "p \<le> of_int (n + 1)" unfolding p_def by (rule round_binary64_below_8(3)[OF x0 x8])
  have near: "\<bar>p - r * 6\<bar> \<le> 1 / 2 ^ 51" unfolding p_def by (rule round_binary64_below_8(1)[OF x0 x8])
  have d: "generateDiceNumber g = (\<lfloor>p\<rfloor> + 1, g')"
    using assms(1) by (simp add: generateDiceNumber_def Math_floor_def Number_multiply_def p_def)
  show ?thesis
  proof (cases "p = of_int (n + 1)")
    case True
    then have "\<lfloor>p\<rfloor> = n + 1" by (simp only: floor_of_int)
    moreover from True near have "of_int (n + 1) - r * 6 \<le> 1 / 2 ^ 51" by linarith
    ultimately show ?thesis using d by (simp add: n_def)
  next
    case False
    with hi have "p < of_int n + 1" by simp
    with lo have "\<lfloor>p\<rfloor> = n" by (simp add: floor_eq_iff)
    then show ?thesis using d by (simp add: n_def)
  qed
qed




lemma Array_from_loop_length: "length (fst (Array_from_loop n mapfn g)) = n"
  by (induction n arbitrary: g) (simp_all add: split_beta Let_def)



lemma ToLength_zero: "ToLength (JSNumber (Finite 0)) = 0"
  by (simp add: ToLength_def ToIntegerOrInfinity_def ToNumber_def truncate_rat_def)

lemma ToLength_nonpositive:
  assumes "ToNumber v = NaN \<or> ToNumber v = NegInfinity \<or> (\<exists>x. ToNumber v = Finite x \<and> x \<le> 0)"
  shows "ToLength v = 0"
proof -
  have "\<lceil>x\<rceil> \<le> 0" if "x \<le> 0" for x :: rat using that by (simp add: ceiling_le_iff)
  moreover have "\<lfloor>x\<rfloor> \<le> 0" if "x \<le> 0" for x :: rat using that by (simp add: floor_le_iff)
  ultimately show ?thesis using assms
    by (auto simp: ToLength_def ToIntegerOrInfinity_def truncate_rat_def)
qed

lemma ToNumber_empty: "ToNumber (JSString []) = Finite 0"
  by (simp add: ToNumber_def StringToNumber_def trimString_def)

lemma generateDiceNumbers_zero:
  "ToLength v = 0 \<Longrightarrow> generateDiceNumbers v g = Inr ([], g)"
  by (simp add: generateDiceNumbers_def Array_from_def)

lemma generateDiceNumbers_length:
  "generateDiceNumbers v g = Inr (ds, g1) \<Longrightarrow> length ds = ToLength v"
  using Array_from_loop_length[of "ToLength v" generateDiceNumber g]
  by (auto simp: generateDiceNumbers_def Array_from_def Let_def split: if_splits)

lemma generateDiceNumbers_RangeError:
  "2 ^ 32 - 1 < ToLength v \<Longrightarrow> generateDiceNumbers v g = Inl RangeError"
  by (simp add: generateDiceNumbers_def Array_from_def)


lemma generateDiceNumbers_fails:
  "generateDiceNumbers v g = Inl e \<Longrightarrow> generateDiceNumbers v g' = Inl e"
  by (auto simp: generateDiceNumbers_def Array_from_def Let_def split: if_splits)

lemma generateDiceNumbers_succeeds:
  "generateDiceNumbers v g = Inr r \<Longrightarrow> \<exists>r'. generateDiceNumbers v g' = Inr r'"
  by (auto simp: generateDiceNumbers_def Array_from_def Let_def split: if_splits)

lemma rollDice_raw:
  "rollDice s g =
     (case generateDiceNumbers (JSString (dice_input_value s)) g of
        Inl e \<Rightarrow> Inl e
      | Inr (diceNumbers, g') \<Rightarrow> Inr (displayDiceNumbers diceNumbers s, g'))"
  by (simp add: rollDice_def)

lemma rollDice_zero:
  "ToLength (JSString (dice_input_value s)) = 0 \<Longrightarrow>
   rollDice s g = Inr (s\<lparr>dice_container_innerHTML := []\<rparr>, g)"
  by (simp add: rollDice_def generateDiceNumbers_zero displayDiceNumbers_def)

lemma rollDice_RangeError:
  "2 ^ 32 - 1 < ToLength (JSString (dice_input_value s)) \<Longrightarrow> rollDice s g = Inl RangeError"
  by (simp add: rollDice_def generateDiceNumbers_RangeError)

lemma resetDice_idempotent: "resetDice (resetDice s) = resetDice s"
  by (simp add: resetDice_def)

text \<open>
  A second roll writes what a first roll with the same draws would have written:
  the input field is as it was, and the display of the first roll is overwritten.
\<close>

lemma rollDice_again:
  assumes "rollDice s g = Inr (s1, g1)"
  shows "dice_input_value s1 = dice_input_value s \<and> rollDice s1 g1 = rollDice s g1
       \<and> (\<exists>ds ds' g2. s1 = displayDiceNumbers ds s
             \<and> rollDice s1 g1 = Inr (displayDiceNumbers ds' s, g2)
             \<and> length ds' = length ds)"
proof -
  from assms obtain ds where ds: "generateDiceNumbers (JSString (dice_input_value s)) g = Inr (ds, g1)"
      and s1: "s1 = displayDiceNumbers ds s"
    by (auto simp: rollDice_def split: sum.splits)
  have keep: "dice_input_value s1 = dice_input_value s" by (simp add: s1 displayDiceNumbers_def)
  have over: "displayDiceNumbers xs s1 = displayDiceNumbers xs s" for xs
    by (simp add: s1 displayDiceNumbers_def)
  have same: "rollDice s1 g1 = rollDice s g1"
    by (simp add: rollDice_def keep over split: sum.splits prod.splits)
  from ds obtain r' where "generateDiceNumbers (JSString (dice_input_value s)) g1 = Inr r'"
    using generateDiceNumbers_succeeds by blast
  then obtain ds' g2 where ds': "generateDiceNumbers (JSString (dice_input_value s)) g1 = Inr (ds', g2)"
    by (cases r') auto
  then have "rollDice s g1 = Inr (displayDiceNumbers ds' s, g2)" by (simp add: rollDice_def)
  moreover have "length ds' = length ds"
    using generateDiceNumbers_length[OF ds] generateDiceNumbers_length[OF ds'] by simp
  ultimately show ?thesis using keep same s1 by auto
qed

lemma rollDice_fails_again:
  "rollDice s g = Inl e \<Longrightarrow> rollDice s g' = Inl e"
  using generateDiceNumbers_fails[of "JSString (dice_input_value s)" g e g']
  by (auto simp: rollDice_def split: sum.splits)

subsection \<open>The markup and its blocks\<close>

lemma Array_join_empty_separator: "Array_join [] xs = concat xs"
  by (induction "[] :: string" xs rule: Array_join.induct) simp_all

lemma strip_prefix_append: "strip_prefix p (p @ rest) = Some rest"
  by (simp add: strip_prefix_def)

lemma dice_blocks_face:
  assumes "CHR ''<'' \<notin> set content"
  shows "dice_blocks (''<div class=\"dice-face\">'' @ content @ ''</div>'' @ rest)
         = map_option ((#) content) (dice_blocks rest)"
proof -
  have t: "takeWhile (\<lambda>c. c \<noteq> CHR ''<'') (content @ ''</div>'' @ rest) = content"
    using assms by (subst takeWhile_append2) auto
  have d: "dropWhile (\<lambda>c. c \<noteq> CHR ''<'') (content @ ''</div>'' @ rest) = ''</div>'' @ rest"
    using assms by (subst dropWhile_append2) auto
  have p: "strip_prefix ''<div class=\"dice-face\">'' (''<div class=\"dice-face\">'' @ content @ ''</div>'' @ rest)
           = Some (content @ ''</div>'' @ rest)"
    by (rule strip_prefix_append)
  have q: "strip_prefix ''</div>'' (''</div>'' @ rest) = Some rest"
    by (rule strip_prefix_append)
  show ?thesis
    by (subst dice_blocks.simps) (simp only: p q t d option.case, simp)
qed

lemma decimal_digit_no_lt: "k < 10 \<Longrightarrow> ''0123456789'' ! k \<noteq> CHR ''<''"
proof -
  assume "k < 10"
  then have "''0123456789'' ! k \<in> set ''0123456789''" by (simp only: nth_mem length_Cons list.size)
  then show ?thesis by auto
qed

lemma decimal_digits_no_lt: "CHR ''<'' \<notin> set (decimal_digits n)"
proof (induction n rule: decimal_digits.induct)
  case (1 n)
  show ?case
  proof (cases "n < 10")
    case True
    then show ?thesis using decimal_digit_no_lt[of n] by (subst decimal_digits.simps) auto
  next
    case False
    have "n mod 10 < 10" by simp
    then have "''0123456789'' ! (n mod 10) \<noteq> CHR ''<''" by (rule decimal_digit_no_lt)
    with False "1.IH" show ?thesis by (subst decimal_digits.simps) auto
  qed
qed

lemma Number_toString_no_lt: "CHR ''<'' \<notin> set (Number_toString n)"
  by (simp add: Number_toString_def decimal_digits_no_lt)

lemma dice_blocks_render:
  "dice_blocks (concat (map dice_face ds)) = Some (map Number_toString ds)"
proof (induction ds)
  case Nil
  then show ?case by (simp add: dice_blocks.simps)
next
  case (Cons d ds)
  have "dice_blocks (dice_face d @ concat (map dice_face ds))
        = map_option ((#) (Number_toString d)) (dice_blocks (concat (map dice_face ds)))"
    unfolding dice_face_def using dice_blocks_face[OF Number_toString_no_lt] by simp
  with Cons show ?case by simp
qed

subsection \<open>The script at some inputs\<close>

lemma is_binary64_0: "is_binary64 0"
  using is_binary64_dyadic[of 0 0] by simp

lemma is_binary64_1: "is_binary64 1"
  using is_binary64_dyadic[of 1 0] by simp

lemma is_binary64_3: "is_binary64 3"
  using is_binary64_dyadic[of 3 0] by simp

lemma is_binary64_half: "is_binary64 (1 / 2)"
  using is_binary64_dyadic[of 1 1] by simp

lemma Math_random_contract_half: "Math_random_contract (\<lambda>i. 1 / 2)"
  using is_binary64_half by (simp add: Math_random_contract_def)

lemma generateDiceNumber_half: "generateDiceNumber (\<lambda>i. 1 / 2) = (4, \<lambda>i. 1 / 2)"
proof -
  have "Number_multiply (1 / 2) 6 = 3"
    using is_binary64_3 by (simp add: Number_multiply_def is_binary64_def)
  then show ?thesis by (simp add: generateDiceNumber_def Math_random_def Math_floor_def)
qed

lemma generateDiceNumber_0_then_half:
  "generateDiceNumber (\<lambda>i. if i = 0 then 0 else 1 / 2) = (1, \<lambda>i. 1 / 2)"
  using is_binary64_0
  by (simp add: generateDiceNumber_def Math_random_def Number_multiply_def Math_floor_def is_binary64_def)

text \<open>The draw at the Number nearest to one sixth is 2, the rounded product being 1.\<close>

lemma generateDiceNumber_sixth:
  "generateDiceNumber (\<lambda>i. 6004799503160661 / 2 ^ 55) = (2, \<lambda>i. 6004799503160661 / 2 ^ 55)"
proof -
  have "Number_multiply (6004799503160661 / 2 ^ 55) 6 = 1"
    using Number_multiply_rounds_up by (rule conjunct1)
  then show ?thesis
    by (simp only: generateDiceNumber_def Math_random_def Let_def prod.case Math_floor_def) simp
qed

lemma StringToNumber_abc: "StringToNumber ''abc'' = NaN"
  by (simp add: StringToNumber_def trimString_def StrWhiteSpaceChar_def NonDecimalIntegerLiteral_def
     StrDecimalLiteral_def StrUnsignedDecimalLiteral_def Digits_def digit_of_def Let_def)

lemma StringToNumber_minus_3: "StringToNumber ''-3'' = Finite (- 3)"
  using is_binary64_3
  by (simp add: StringToNumber_def trimString_def StrWhiteSpaceChar_def NonDecimalIntegerLiteral_def
     StrDecimalLiteral_def StrUnsignedDecimalLiteral_def Digits_def digit_of_def Let_def MV_def power10_def
     Number_value_def is_binary64_def round_binary64_def)

lemma StringToNumber_1: "StringToNumber ''1'' = Finite 1"
  using is_binary64_1
  by (simp add: StringToNumber_def trimString_def StrWhiteSpaceChar_def NonDecimalIntegerLiteral_def
     StrDecimalLiteral_def StrUnsignedDecimalLiteral_def Digits_def digit_of_def Let_def MV_def power10_def
     Number_value_def is_binary64_def)

lemma StringToNumber_2to32: "StringToNumber ''4294967296'' = Finite 4294967296"
  using is_binary64_dyadic[of 4294967296 0]
  by (simp add: StringToNumber_def trimString_def StrWhiteSpaceChar_def NonDecimalIntegerLiteral_def
     StrDecimalLiteral_def StrUnsignedDecimalLiteral_def Digits_def digit_of_def Let_def MV_def power10_def
     Number_value_def is_binary64_def)

lemma ToLength_1: "ToLength (JSString ''1'') = 1"
  by (simp add: ToLength_def ToIntegerOrInfinity_def ToNumber_def StringToNumber_1 truncate_rat_def)

lemma ToLength_2to32: "ToLength (JSString ''4294967296'') = 4294967296"
  by (simp add: ToLength_def ToIntegerOrInfinity_def ToNumber_def StringToNumber_2to32 truncate_rat_def)

lemma dice_face_1: "dice_face 1 = ''<div class=\"dice-face\">1</div>''"
  by (simp add: dice_face_def Number_toString_def decimal_digits.simps)

lemma dice_face_4: "dice_face 4 = ''<div class=\"dice-face\">4</div>''"
  by (simp add: dice_face_def Number_toString_def decimal_digits.simps)

lemma rollDice_first:
  "rollDice \<lparr>dice_container_innerHTML = [], dice_input_value = ''1''\<rparr> (\<lambda>i. if i = 0 then 0 else 1 / 2)
   = Inr (\<lparr>dice_container_innerHTML = ''<div class=\"dice-face\">1</div>'', dice_input_value = ''1''\<rparr>,
          \<lambda>i. 1 / 2)"
  by (simp add: rollDice_def generateDiceNumbers_def Array_from_def ToLength_1
      generateDiceNumber_0_then_half displayDiceNumbers_def dice_face_1)

lemma rollDice_second:
  "rollDice \<lparr>dice_container_innerHTML = ''<div class=\"dice-face\">1</div>'', dice_input_value = ''1''\<rparr>
     (\<lambda>i. 1 / 2)
   = Inr (\<lparr>dice_container_innerHTML = ''<div class=\"dice-face\">4</div>'', dice_input_value = ''1''\<rparr>,
          \<lambda>i. 1 / 2)"
  by (simp add: rollDice_def generateDiceNumbers_def Array_from_def ToLength_1
      generateDiceNumber_half displayDiceNumbers_def dice_face_4)

lemma round_binary64_0: "round_binary64 0 = 0"
  using is_binary64_0 by (simp add: is_binary64_def)

lemma round_binary64_3: "round_binary64 3 = 3"
  using is_binary64_3 by (simp add: is_binary64_def)

lemma round_binary64_21_4: "round_binary64 (21 / 4) = 21 / 4"
  using is_binary64_dyadic[of 21 2] by (simp add: is_binary64_def)

lemma generateDiceNumber_7_8: "generateDiceNumber (\<lambda>i. 7 / 8) = (6, \<lambda>i. 7 / 8)"
proof -
  have "\<lfloor>21 / 4 :: rat\<rfloor> = 5" by (simp add: floor_eq_iff)
  then show ?thesis
    by (simp add: generateDiceNumber_def Math_random_def Number_multiply_def Math_floor_def
        round_binary64_21_4)
qed



text \<open>Some values of the input field, and a roll of three dice with the draws 0, 1/2 and 7/8.\<close>

lemma StringToNumber_3: "StringToNumber ''3'' = Finite 3"
  by (simp add: StringToNumber_def trimString_def StrWhiteSpaceChar_def NonDecimalIntegerLiteral_def
     StrDecimalLiteral_def StrUnsignedDecimalLiteral_def Digits_def digit_of_def Let_def MV_def power10_def
     Number_value_def round_binary64_3)

lemma StringToNumber_spaces: "StringToNumber '' 3  '' = Finite 3"
  by (simp add: StringToNumber_def trimString_def StrWhiteSpaceChar_def NonDecimalIntegerLiteral_def
     StrDecimalLiteral_def StrUnsignedDecimalLiteral_def Digits_def digit_of_def Let_def MV_def power10_def
     Number_value_def round_binary64_3)

lemma StringToNumber_hex: "StringToNumber ''0x1F'' = Finite 31"
  using is_binary64_dyadic[of 31 0]
  by (simp add: StringToNumber_def trimString_def StrWhiteSpaceChar_def NonDecimalIntegerLiteral_def
     Digits_def digit_of_def Let_def MV_def Number_value_def is_binary64_def)

lemma StringToNumber_exponent: "StringToNumber ''1e3'' = Finite 1000"
  using is_binary64_dyadic[of 1000 0]
  by (simp add: StringToNumber_def trimString_def StrWhiteSpaceChar_def NonDecimalIntegerLiteral_def
     StrDecimalLiteral_def StrUnsignedDecimalLiteral_def SignedInteger_def Digits_def digit_of_def Let_def MV_def power10_def
     Number_value_def is_binary64_def)

lemma StringToNumber_unit: "StringToNumber ''3px'' = NaN"
  by (simp add: StringToNumber_def trimString_def StrWhiteSpaceChar_def NonDecimalIntegerLiteral_def
     StrDecimalLiteral_def StrUnsignedDecimalLiteral_def Digits_def digit_of_def Let_def)

lemma StringToNumber_Infinity: "StringToNumber ''-Infinity'' = NegInfinity"
  by (simp add: StringToNumber_def trimString_def StrWhiteSpaceChar_def NonDecimalIntegerLiteral_def
     StrDecimalLiteral_def Let_def)

lemma rollDice_three:
  "rollDice \<lparr>dice_container_innerHTML = [], dice_input_value = ''3''\<rparr>
     (\<lambda>i. if i = 0 then 0 else if i = 1 then 1 / 2 else 7 / 8)
   = Inr (\<lparr>dice_container_innerHTML =
             ''<div class=\"dice-face\">1</div><div class=\"dice-face\">4</div><div class=\"dice-face\">6</div>'',
           dice_input_value = ''3''\<rparr>,
          \<lambda>i. 7 / 8)"
proof -
  have len: "ToLength (JSString ''3'') = 3"
    by (simp add: ToLength_def ToIntegerOrInfinity_def ToNumber_def StringToNumber_3 truncate_rat_def)
  have fl: "\<lfloor>21 / 4 :: rat\<rfloor> = 5" by (simp add: floor_eq_iff)
  have loop: "Array_from_loop 3 generateDiceNumber (\<lambda>i. if i = 0 then 0 else if i = 1 then 1 / 2 else 7 / 8)
      = ([1, 4, 6], \<lambda>i. 7 / 8)"
    by (simp add: numeral_3_eq_3 generateDiceNumber_def Math_random_def Number_multiply_def
        Math_floor_def round_binary64_0 round_binary64_3 round_binary64_21_4 fl)
  show ?thesis
    by (simp add: rollDice_def generateDiceNumbers_def Array_from_def len loop displayDiceNumbers_def
        dice_face_def Number_toString_def decimal_digits.simps)
qed


section \<open>The generator\<close>




text \<open>
  C5, as amended. Each draw takes one value \<open>r\<close> of \<^verbatim>\<open>Math.random()\<close> and hands the rest
  of the random source on. For every Number \<open>r\<close> with \<open>0 \<le> r < 1\<close> the draw is one of
  1, 2, 3, 4, 5, 6, and it is \<open>\<lfloor>r * 6\<rfloor> + 1\<close>, floor and product being those of the reals,
  except where the Number product of the script has rounded up to the next integer: there
  the draw is \<open>\<lfloor>r * 6\<rfloor> + 2\<close>, and \<open>r * 6\<close> is within \<open>2 ^ -51\<close> below that integer.
\<close>

theorem C5_generateDiceNumber_draw:
  assumes "Math_random g = (r, g')" and "is_binary64 r" and "0 \<le> r" and "r < 1"
  shows "\<exists>d. generateDiceNumber g = (d, g')
           \<and> d \<in> {1, 2, 3, 4, 5, 6}
           \<and> (d = \<lfloor>r * 6\<rfloor> + 1
                \<or> d = \<lfloor>r * 6\<rfloor> + 2 \<and> of_int (\<lfloor>r * 6\<rfloor> + 1) - r * 6 \<le> 1 / 2 ^ 51)"
proof -
  from generateDiceNumber_near_exact[OF assms(1,3,4)]
  obtain d where d: "generateDiceNumber g = (d, g')"
    and rel: "d = \<lfloor>r * 6\<rfloor> + 1
              \<or> d = \<lfloor>r * 6\<rfloor> + 2 \<and> of_int (\<lfloor>r * 6\<rfloor> + 1) - r * 6 \<le> 1 / 2 ^ 51"
    by blast
  from generateDiceNumber_draw[OF assms] d have "1 \<le> d \<and> d \<le> 6" by simp
  then have "d \<in> {1, 2, 3, 4, 5, 6}" by simp arith
  with d rel show ?thesis by blast
qed

theorem C5_generateDiceNumber_draw_witness:
  "Math_random (\<lambda>i. 7 / 8) = (7 / 8, \<lambda>i. 7 / 8) \<and> is_binary64 (7 / 8)
   \<and> generateDiceNumber (\<lambda>i. 7 / 8) = (6, \<lambda>i. 7 / 8)
   \<and> \<lfloor>7 / 8 * 6 :: rat\<rfloor> + 1 = 6
   \<and> (\<exists>d. generateDiceNumber (\<lambda>i. 7 / 8) = (d, \<lambda>i. 7 / 8) \<and> d \<in> {1, 2, 3, 4, 5, 6}
          \<and> (d = \<lfloor>7 / 8 * 6 :: rat\<rfloor> + 1
               \<or> d = \<lfloor>7 / 8 * 6 :: rat\<rfloor> + 2 \<and> of_int (\<lfloor>7 / 8 * 6 :: rat\<rfloor> + 1) - 7 / 8 * 6 \<le> (1 / 2 ^ 51 :: rat)))"
proof -
  have r: "Math_random (\<lambda>i. 7 / 8) = (7 / 8, \<lambda>i. 7 / 8)" by (simp add: Math_random_def)
  have b: "is_binary64 (7 / 8)" using is_binary64_dyadic[of 7 3] by simp
  have f: "\<lfloor>7 / 8 * 6 :: rat\<rfloor> + 1 = 6" by (simp add: floor_eq_iff)
  have "\<exists>d. generateDiceNumber (\<lambda>i. 7 / 8) = (d, \<lambda>i. 7 / 8) \<and> d \<in> {1, 2, 3, 4, 5, 6}
          \<and> (d = \<lfloor>7 / 8 * 6 :: rat\<rfloor> + 1
               \<or> d = \<lfloor>7 / 8 * 6 :: rat\<rfloor> + 2 \<and> of_int (\<lfloor>7 / 8 * 6 :: rat\<rfloor> + 1) - 7 / 8 * 6 \<le> (1 / 2 ^ 51 :: rat))"
    by (rule C5_generateDiceNumber_draw[OF r b]) simp_all
  with r b f generateDiceNumber_7_8 show ?thesis by (intro conjI)
qed

text \<open>
  C5 as stated, the draw being \<open>\<lfloor>r * 6\<rfloor> + 1\<close> for every \<open>r\<close>, fails at the Number nearest
  to one sixth, \<open>6004799503160661 / 2 ^ 55\<close>: it is below one sixth, so \<open>\<lfloor>r * 6\<rfloor> + 1 = 1\<close>,
  but its Number product with 6 is exactly 1 and the draw is 2.
\<close>

theorem C5_exact_product_counterexample:
  "Math_random (\<lambda>i. 6004799503160661 / 2 ^ 55)
     = (6004799503160661 / 2 ^ 55, \<lambda>i. 6004799503160661 / 2 ^ 55)
   \<and> is_binary64 (6004799503160661 / 2 ^ 55)
   \<and> (0::rat) \<le> 6004799503160661 / 2 ^ 55 \<and> (6004799503160661 / 2 ^ 55 :: rat) < 1
   \<and> fst (generateDiceNumber (\<lambda>i. 6004799503160661 / 2 ^ 55)) = 2
   \<and> \<lfloor>(6004799503160661 / 2 ^ 55 :: rat) * 6\<rfloor> + 1 = 1"
proof -
  have "Math_random (\<lambda>i. 6004799503160661 / 2 ^ 55)
     = (6004799503160661 / 2 ^ 55, \<lambda>i. 6004799503160661 / 2 ^ 55)"
    by (simp only: Math_random_def)
  moreover have "fst (generateDiceNumber (\<lambda>i. 6004799503160661 / 2 ^ 55)) = 2"
    by (simp only: generateDiceNumber_sixth fst_conv)
  moreover have "\<lfloor>(6004799503160661 / 2 ^ 55 :: rat) * 6\<rfloor> + 1 = 1"
    using Number_multiply_rounds_up by simp
  moreover have "(0::rat) \<le> 6004799503160661 / 2 ^ 55" and "(6004799503160661 / 2 ^ 55 :: rat) < 1"
    by simp_all
  ultimately show ?thesis using is_binary64_sixth by (intro conjI)
qed

text \<open>
  C7. For the count 0 the generator returns the empty roll result (and draws nothing),
  and rendering the empty roll result leaves the display empty.
\<close>

theorem C7_zero_dice_empty_display:
  "generateDiceNumbers (JSNumber (Finite 0)) g = Inr ([], g)
   \<and> dice_container_innerHTML (displayDiceNumbers [] s) = []"
  by (simp add: generateDiceNumbers_zero ToLength_zero displayDiceNumbers_def)

theorem C7_zero_dice_empty_display_witness:
  "generateDiceNumbers (JSNumber (Finite 0)) (\<lambda>i. 1 / 2) = Inr ([], \<lambda>i. 1 / 2)
   \<and> dice_container_innerHTML
       (displayDiceNumbers [] \<lparr>dice_container_innerHTML = ''<div class=\"dice-face\">2</div>'',
                               dice_input_value = ''0''\<rparr>) = []"
  by (rule C7_zero_dice_empty_display)

section \<open>The renderer\<close>

text \<open>
  C2. The notes of the repository describe a die as a 3 by 3 matrix of cells, with the
  centre cell set for the face value 1 and the three cells of each side column set for 6.
  The renderer does not draw it: for the face value 1 the block it writes holds the
  numeral 1 and no cell, and for 6 the numeral 6.
\<close>

theorem C2_displayDiceNumbers_numeral_only:
  "dice_container_innerHTML (displayDiceNumbers [1] s) = ''<div class=\"dice-face\">1</div>''
   \<and> dice_blocks (dice_container_innerHTML (displayDiceNumbers [1] s)) = Some [''1'']
   \<and> dice_container_innerHTML (displayDiceNumbers [6] s) = ''<div class=\"dice-face\">6</div>''
   \<and> dice_blocks (dice_container_innerHTML (displayDiceNumbers [6] s)) = Some [''6'']"
proof -
  have blocks: "dice_blocks (dice_container_innerHTML (displayDiceNumbers [n] s))
      = Some [Number_toString n]" for n
    using dice_blocks_render[of "[n]"]
    by (simp add: displayDiceNumbers_def)
  have "Number_toString 1 = ''1''" and "Number_toString 6 = ''6''"
    by (simp_all add: Number_toString_def decimal_digits.simps)
  with blocks[of 1] blocks[of 6] show ?thesis
    by (simp add: displayDiceNumbers_def dice_face_def)
qed

text \<open>
  C6. Rendering replaces the display: for every roll result and any two pages, the
  display after \<open>displayDiceNumbers\<close> is the same on both, so it depends on the roll
  result alone and not on what was displayed before.
\<close>

theorem C6_displayDiceNumbers_overwrites:
  "dice_container_innerHTML (displayDiceNumbers diceNumbers s1)
   = dice_container_innerHTML (displayDiceNumbers diceNumbers s2)"
  by (simp add: displayDiceNumbers_def)

theorem C6_displayDiceNumbers_overwrites_witness:
  "dice_container_innerHTML
     (displayDiceNumbers [4] \<lparr>dice_container_innerHTML = [], dice_input_value = ''1''\<rparr>)
   = dice_container_innerHTML
     (displayDiceNumbers [4] \<lparr>dice_container_innerHTML = ''<div class=\"dice-face\">1</div>'',
                              dice_input_value = ''7''\<rparr>)"
  by (rule C6_displayDiceNumbers_overwrites)

text \<open>
  C10. For every roll result the display holds one block for each face value, in the
  order of the roll result, and the text of each block is the numeral of its face value:
  the markup is the blocks of the values one after the other, and read back it gives
  exactly these numerals, none added, dropped or moved.
\<close>

theorem C10_displayDiceNumbers_blocks:
  "dice_container_innerHTML (displayDiceNumbers diceNumbers s) = concat (map dice_face diceNumbers)
   \<and> dice_blocks (dice_container_innerHTML (displayDiceNumbers diceNumbers s))
     = Some (map Number_toString diceNumbers)"
  by (simp add: displayDiceNumbers_def Array_join_empty_separator dice_blocks_render)

theorem C10_displayDiceNumbers_blocks_witness:
  "dice_container_innerHTML (displayDiceNumbers [3, 6, 1] \<lparr>dice_container_innerHTML = ''old'', dice_input_value = ''3''\<rparr>)
     = ''<div class=\"dice-face\">3</div><div class=\"dice-face\">6</div><div class=\"dice-face\">1</div>''
   \<and> dice_blocks ''<div class=\"dice-face\">3</div><div class=\"dice-face\">6</div><div class=\"dice-face\">1</div>''
     = Some [''3'', ''6'', ''1'']"
proof -
  let ?s = "\<lparr>dice_container_innerHTML = ''old'', dice_input_value = ''3''\<rparr>"
  have shown: "dice_container_innerHTML (displayDiceNumbers [3, 6, 1] ?s)
     = ''<div class=\"dice-face\">3</div><div class=\"dice-face\">6</div><div class=\"dice-face\">1</div>''"
    by (simp add: displayDiceNumbers_def dice_face_def Number_toString_def decimal_digits.simps)
  have "dice_blocks (dice_container_innerHTML (displayDiceNumbers [3, 6, 1] ?s))
     = Some (map Number_toString [3, 6, 1])"
    using C10_displayDiceNumbers_blocks[of "[3, 6, 1]" ?s] by (rule conjunct2)
  then have "dice_blocks ''<div class=\"dice-face\">3</div><div class=\"dice-face\">6</div><div class=\"dice-face\">1</div>''
     = Some [''3'', ''6'', ''1'']"
    by (simp only: shown) (simp add: Number_toString_def decimal_digits.simps)
  with shown show ?thesis by (rule conjI)
qed

section \<open>The two commands\<close>

text \<open>
  C3. Whatever the display holds and whatever the input field holds, after
  \<open>resetDice\<close> the display is empty and the value of the input field is the empty
  string.
\<close>

theorem C3_resetDice_clears:
  "dice_container_innerHTML (resetDice s) = [] \<and> dice_input_value (resetDice s) = []"
  by (simp add: resetDice_def)

theorem C3_resetDice_clears_witness:
  "dice_container_innerHTML
     (resetDice \<lparr>dice_container_innerHTML = ''<div class=\"dice-face\">3</div>'',
                 dice_input_value = ''1''\<rparr>) = []
   \<and> dice_input_value
     (resetDice \<lparr>dice_container_innerHTML = ''<div class=\"dice-face\">3</div>'',
                 dice_input_value = ''1''\<rparr>) = []"
  by (rule C3_resetDice_clears)

text \<open>
  C4, as amended. For every value of the input field, \<open>rollDice\<close> hands the string it
  read to the generator as it is, and has no check of its own. For a value that is not
  numeric (NaN) or negative nothing is rejected and no error is raised: the roll goes
  through with the empty roll result. The roll path is not free of errors: when the
  coerced length is above \<open>2 ^ 32 - 1\<close> the array construction raises a RangeError, which
  the roll does not catch.
\<close>

theorem C4_rollDice_passes_raw_value:
  "rollDice s g =
     (case generateDiceNumbers (JSString (dice_input_value s)) g of
        Inl e \<Rightarrow> Inl e
      | Inr (diceNumbers, g') \<Rightarrow> Inr (displayDiceNumbers diceNumbers s, g'))
   \<and> (2 ^ 32 - 1 < ToLength (JSString (dice_input_value s)) \<longrightarrow> rollDice s g = Inl RangeError)
   \<and> (ToNumber (JSString (dice_input_value s)) = NaN
        \<or> ToNumber (JSString (dice_input_value s)) = NegInfinity
        \<or> (\<exists>x. ToNumber (JSString (dice_input_value s)) = Finite x \<and> x < 0)
      \<longrightarrow> rollDice s g = Inr (s\<lparr>dice_container_innerHTML := []\<rparr>, g))"
proof -
  have "rollDice s g = Inr (s\<lparr>dice_container_innerHTML := []\<rparr>, g)"
    if "ToNumber (JSString (dice_input_value s)) = NaN
        \<or> ToNumber (JSString (dice_input_value s)) = NegInfinity
        \<or> (\<exists>x. ToNumber (JSString (dice_input_value s)) = Finite x \<and> x < 0)"
  proof -
    from that have "ToNumber (JSString (dice_input_value s)) = NaN
        \<or> ToNumber (JSString (dice_input_value s)) = NegInfinity
        \<or> (\<exists>x. ToNumber (JSString (dice_input_value s)) = Finite x \<and> x \<le> 0)"
      by auto
    then have "ToLength (JSString (dice_input_value s)) = 0" by (rule ToLength_nonpositive)
    then show ?thesis by (rule rollDice_zero)
  qed
  with rollDice_RangeError[of s g] rollDice_raw[of s g] show ?thesis by blast
qed

theorem C4_rollDice_passes_raw_value_witness:
  "ToNumber (JSString ''abc'') = NaN
   \<and> rollDice \<lparr>dice_container_innerHTML = ''old'', dice_input_value = ''abc''\<rparr> (\<lambda>i. 1 / 2)
     = Inr (\<lparr>dice_container_innerHTML = [], dice_input_value = ''abc''\<rparr>, \<lambda>i. 1 / 2)
   \<and> ToNumber (JSString ''-3'') = Finite (- 3)
   \<and> rollDice \<lparr>dice_container_innerHTML = ''old'', dice_input_value = ''-3''\<rparr> (\<lambda>i. 1 / 2)
     = Inr (\<lparr>dice_container_innerHTML = [], dice_input_value = ''-3''\<rparr>, \<lambda>i. 1 / 2)
   \<and> ToLength (JSString ''1e10'') = 10000000000
   \<and> rollDice \<lparr>dice_container_innerHTML = ''old'', dice_input_value = ''1e10''\<rparr> (\<lambda>i. 1 / 2)
     = Inl RangeError"
proof -
  let ?abc = "\<lparr>dice_container_innerHTML = ''old'', dice_input_value = ''abc''\<rparr>"
  let ?neg = "\<lparr>dice_container_innerHTML = ''old'', dice_input_value = ''-3''\<rparr>"
  let ?big = "\<lparr>dice_container_innerHTML = ''old'', dice_input_value = ''1e10''\<rparr>"
  let ?g = "\<lambda>i::nat. (1 / 2 :: rat)"
  have n1: "ToNumber (JSString ''abc'') = NaN" by (simp add: ToNumber_def StringToNumber_abc)
  have n2: "ToNumber (JSString ''-3'') = Finite (- 3)" by (simp add: ToNumber_def StringToNumber_minus_3)
  have "StringToNumber ''1e10'' = Finite 10000000000"
    using is_binary64_dyadic[of 10000000000 0]
    by (simp add: StringToNumber_def trimString_def StrWhiteSpaceChar_def NonDecimalIntegerLiteral_def
       StrDecimalLiteral_def StrUnsignedDecimalLiteral_def SignedInteger_def Digits_def digit_of_def
       Let_def MV_def power10_def Number_value_def is_binary64_def)
  then have len: "ToLength (JSString ''1e10'') = 10000000000"
    by (simp add: ToLength_def ToIntegerOrInfinity_def ToNumber_def truncate_rat_def)
  have "ToNumber (JSString (dice_input_value ?abc)) = NaN
        \<or> ToNumber (JSString (dice_input_value ?abc)) = NegInfinity
        \<or> (\<exists>x. ToNumber (JSString (dice_input_value ?abc)) = Finite x \<and> x < 0)
      \<longrightarrow> rollDice ?abc ?g = Inr (?abc\<lparr>dice_container_innerHTML := []\<rparr>, ?g)"
    by (rule C4_rollDice_passes_raw_value[of ?abc ?g, THEN conjunct2, THEN conjunct2])
  then have r1: "rollDice ?abc ?g = Inr (?abc\<lparr>dice_container_innerHTML := []\<rparr>, ?g)"
    using n1 by simp
  have "ToNumber (JSString (dice_input_value ?neg)) = NaN
        \<or> ToNumber (JSString (dice_input_value ?neg)) = NegInfinity
        \<or> (\<exists>x. ToNumber (JSString (dice_input_value ?neg)) = Finite x \<and> x < 0)
      \<longrightarrow> rollDice ?neg ?g = Inr (?neg\<lparr>dice_container_innerHTML := []\<rparr>, ?g)"
    by (rule C4_rollDice_passes_raw_value[of ?neg ?g, THEN conjunct2, THEN conjunct2])
  then have r2: "rollDice ?neg ?g = Inr (?neg\<lparr>dice_container_innerHTML := []\<rparr>, ?g)"
    using n2 by simp
  have "2 ^ 32 - 1 < ToLength (JSString (dice_input_value ?big)) \<longrightarrow> rollDice ?big ?g = Inl RangeError"
    by (rule C4_rollDice_passes_raw_value[of ?big ?g, THEN conjunct2, THEN conjunct1])
  then have r3: "rollDice ?big ?g = Inl RangeError" by (simp add: len)
  from n1 n2 len r1 r2 r3 show ?thesis by simp
qed

text \<open>
  C4 as stated, with no error ever on the roll path, fails for the input 4294967296, a
  numeric and positive count: the length is \<open>2 ^ 32\<close>, the array cannot be constructed,
  and the roll ends in a RangeError with the display as it was.
\<close>

theorem C4_rollDice_error_counterexample:
  "ToLength (JSString ''4294967296'') = 4294967296
   \<and> rollDice \<lparr>dice_container_innerHTML = ''old'', dice_input_value = ''4294967296''\<rparr> (\<lambda>i. 1 / 2)
     = Inl RangeError"
  by (simp add: rollDice_RangeError ToLength_2to32)

text \<open>
  C8, as amended. Reset is idempotent. Roll is not, since it draws anew; what holds of
  two rolls in succession is that the second leaves the input field as it was and the
  page exactly as one roll from the first page with the second roll's draws would: the
  display of the first roll is overwritten by as many dice. A roll that fails, fails
  again whatever would have been drawn.
\<close>

theorem C8_reset_idempotent_roll_overwrites:
  "resetDice (resetDice s) = resetDice s
   \<and> (\<forall>s1 g1. rollDice s g = Inr (s1, g1) \<longrightarrow>
         dice_input_value s1 = dice_input_value s \<and> rollDice s1 g1 = rollDice s g1
         \<and> (\<exists>ds ds' g2. s1 = displayDiceNumbers ds s
               \<and> rollDice s1 g1 = Inr (displayDiceNumbers ds' s, g2)
               \<and> length ds' = length ds))
   \<and> (\<forall>e. rollDice s g = Inl e \<longrightarrow> rollDice s g' = Inl e)"
  using resetDice_idempotent rollDice_again rollDice_fails_again by blast

theorem C8_reset_idempotent_roll_overwrites_witness:
  "resetDice (resetDice \<lparr>dice_container_innerHTML = [], dice_input_value = ''1''\<rparr>)
     = resetDice \<lparr>dice_container_innerHTML = [], dice_input_value = ''1''\<rparr>
   \<and> rollDice \<lparr>dice_container_innerHTML = [], dice_input_value = ''1''\<rparr> (\<lambda>i. if i = 0 then 0 else 1 / 2)
     = Inr (\<lparr>dice_container_innerHTML = ''<div class=\"dice-face\">1</div>'', dice_input_value = ''1''\<rparr>,
            \<lambda>i. 1 / 2)
   \<and> rollDice \<lparr>dice_container_innerHTML = ''<div class=\"dice-face\">1</div>'', dice_input_value = ''1''\<rparr>
       (\<lambda>i. 1 / 2)
     = rollDice \<lparr>dice_container_innerHTML = [], dice_input_value = ''1''\<rparr> (\<lambda>i. 1 / 2)"
  using C8_reset_idempotent_roll_overwrites
          [of "\<lparr>dice_container_innerHTML = [], dice_input_value = ''1''\<rparr>"
              "\<lambda>i. if i = 0 then 0 else 1 / 2" "\<lambda>i. 1 / 2"]
        rollDice_first
  by simp

text \<open>
  C8 as stated fails for roll: with the input 1 and a random source that gives 0 and then
  one half, the first roll shows the face 1 and the second roll, from that page, shows
  the face 4.
\<close>

theorem C8_rollDice_idempotent_counterexample:
  "rollDice \<lparr>dice_container_innerHTML = [], dice_input_value = ''1''\<rparr> (\<lambda>i. if i = 0 then 0 else 1 / 2)
   = Inr (\<lparr>dice_container_innerHTML = ''<div class=\"dice-face\">1</div>'', dice_input_value = ''1''\<rparr>,
          \<lambda>i. 1 / 2)
   \<and> rollDice \<lparr>dice_container_innerHTML = ''<div class=\"dice-face\">1</div>'', dice_input_value = ''1''\<rparr>
     (\<lambda>i. 1 / 2)
   = Inr (\<lparr>dice_container_innerHTML = ''<div class=\"dice-face\">4</div>'', dice_input_value = ''1''\<rparr>,
          \<lambda>i. 1 / 2)
   \<and> \<lparr>dice_container_innerHTML = ''<div class=\"dice-face\">4</div>'', dice_input_value = ''1''\<rparr>
     \<noteq> \<lparr>dice_container_innerHTML = ''<div class=\"dice-face\">1</div>'', dice_input_value = ''1''\<rparr>"
  by (simp add: rollDice_first rollDice_second)

text \<open>
  C9. When the value of the input field is the empty string, or any string whose
  numeric coercion is NaN or not positive, the roll does not fail: the length of the
  array is coerced to 0, the roll result is the empty sequence, nothing is drawn, and
  the display is left empty.
\<close>

theorem C9_rollDice_empty_or_nonpositive:
  assumes "dice_input_value s = []
         \<or> ToNumber (JSString (dice_input_value s)) = NaN
         \<or> ToNumber (JSString (dice_input_value s)) = NegInfinity
         \<or> (\<exists>x. ToNumber (JSString (dice_input_value s)) = Finite x \<and> x \<le> 0)"
  shows "ToLength (JSString (dice_input_value s)) = 0
       \<and> generateDiceNumbers (JSString (dice_input_value s)) g = Inr ([], g)
       \<and> rollDice s g = Inr (s\<lparr>dice_container_innerHTML := []\<rparr>, g)"
proof -
  have "ToNumber (JSString (dice_input_value s)) = NaN
      \<or> ToNumber (JSString (dice_input_value s)) = NegInfinity
      \<or> (\<exists>x. ToNumber (JSString (dice_input_value s)) = Finite x \<and> x \<le> 0)"
    using assms ToNumber_empty by auto
  then have "ToLength (JSString (dice_input_value s)) = 0" by (rule ToLength_nonpositive)
  then show ?thesis by (simp add: generateDiceNumbers_zero rollDice_zero)
qed

theorem C9_rollDice_empty_or_nonpositive_witness:
  "rollDice \<lparr>dice_container_innerHTML = ''<div class=\"dice-face\">5</div>'', dice_input_value = []\<rparr> (\<lambda>i. 1 / 2)
     = Inr (\<lparr>dice_container_innerHTML = [], dice_input_value = []\<rparr>, \<lambda>i. 1 / 2)
   \<and> ToNumber (JSString ''abc'') = NaN
   \<and> rollDice \<lparr>dice_container_innerHTML = ''<div class=\"dice-face\">5</div>'', dice_input_value = ''abc''\<rparr> (\<lambda>i. 1 / 2)
     = Inr (\<lparr>dice_container_innerHTML = [], dice_input_value = ''abc''\<rparr>, \<lambda>i. 1 / 2)
   \<and> ToNumber (JSString ''-3'') = Finite (- 3)
   \<and> rollDice \<lparr>dice_container_innerHTML = ''<div class=\"dice-face\">5</div>'', dice_input_value = ''-3''\<rparr> (\<lambda>i. 1 / 2)
     = Inr (\<lparr>dice_container_innerHTML = [], dice_input_value = ''-3''\<rparr>, \<lambda>i. 1 / 2)"
  using C9_rollDice_empty_or_nonpositive
          [of "\<lparr>dice_container_innerHTML = ''<div class=\"dice-face\">5</div>'', dice_input_value = []\<rparr>" "\<lambda>i. 1 / 2"]
        C9_rollDice_empty_or_nonpositive
          [of "\<lparr>dice_container_innerHTML = ''<div class=\"dice-face\">5</div>'', dice_input_value = ''abc''\<rparr>" "\<lambda>i. 1 / 2"]
        C9_rollDice_empty_or_nonpositive
          [of "\<lparr>dice_container_innerHTML = ''<div class=\"dice-face\">5</div>'', dice_input_value = ''-3''\<rparr>" "\<lambda>i. 1 / 2"]
  by (simp add: ToNumber_def StringToNumber_abc StringToNumber_minus_3)

end
